theory Spec2Isabelle
  imports Complex_Main "HOL-Library.Multiset" "HOL-Library.AList"
begin

section \<open>The requirement grammar (types.ts)\<close>

datatype Logic = ALL_OF | ONE_OF | TWO_OF

datatype courseLevels = L100 | L200 | L300 | L400

datatype Standing = S1st | S2nd | S3rd | S4th | Sgraduate

text \<open>
  The tagged union \<^verbatim>\<open>Requirements\<close>. JavaScript numbers are modelled as reals
  (rounding error of IEEE doubles is not modelled); an optional field is an \<open>option\<close>;
  a field of type \<^verbatim>\<open>T | T[]\<close> is a sum.
\<close>

datatype Requirements =
    RequirementGroup Logic "Requirements list"
  | RequirementCourse string "real option" "bool option" "bool option"
  | RequirementCreditCount real "(string + string list) option"
      "(courseLevels + courseLevels list) option" "real option"
  | RequirementCourseCount real "(string + string list) option"
      "(courseLevels + courseLevels list) option" "real option"
  | RequirementStanding Standing
  | RequirementProgram string
  | RequirementPermission string
  | RequirementOther string

section \<open>The dependency extractor (export.ts)\<close>

text \<open>
  \<^verbatim>\<open>extractCourseRequirementsWithValues(node, baseValue)\<close>. The result array of
  \<^verbatim>\<open>{course, value}\<close> objects is a list of pairs. The \<^verbatim>\<open>for ... of\<close> loop over the
  children, which pushes each child's result onto \<^verbatim>\<open>courses\<close>, is \<open>extractChildren\<close>
  with \<^verbatim>\<open>courses\<close> as its accumulator. With no children the quotient
  \<^verbatim>\<open>baseValue / 0\<close> is computed and never used.
\<close>

fun extractCourseRequirementsWithValues :: "Requirements \<Rightarrow> real \<Rightarrow> (string \<times> real) list"
  and extractChildren :: "Requirements list \<Rightarrow> real \<Rightarrow> (string \<times> real) list \<Rightarrow> (string \<times> real) list"
where
  "extractCourseRequirementsWithValues (RequirementCourse course mg cc mc) baseValue =
     [(course, baseValue)]"
| "extractCourseRequirementsWithValues (RequirementGroup logic children) baseValue =
     (let childValue =
        (if logic = ONE_OF then baseValue / real (length children)
         else if logic = TWO_OF then (baseValue * 2) / real (length children)
         else baseValue)
      in extractChildren children childValue [])"
| "extractCourseRequirementsWithValues (RequirementCreditCount c d l g) baseValue = []"
| "extractCourseRequirementsWithValues (RequirementCourseCount c d l g) baseValue = []"
| "extractCourseRequirementsWithValues (RequirementStanding s) baseValue = []"
| "extractCourseRequirementsWithValues (RequirementProgram p) baseValue = []"
| "extractCourseRequirementsWithValues (RequirementPermission n) baseValue = []"
| "extractCourseRequirementsWithValues (RequirementOther n) baseValue = []"
| "extractChildren [] childValue courses = courses"
| "extractChildren (child # rest) childValue courses =
     extractChildren rest childValue
       (courses @ extractCourseRequirementsWithValues child childValue)"

section \<open>The depth combinator (export.ts)\<close>

text \<open>
  The depth table \<^verbatim>\<open>Map<string, number>\<close> is only read with \<^verbatim>\<open>get\<close> and written with
  \<^verbatim>\<open>set\<close>, so it is a partial function. Depths are non-negative integers.
  \<^verbatim>\<open>courseDepths.get(id) || 0\<close> is \<open>getOr0\<close>: a missing key and a stored 0 both give 0.
\<close>

type_synonym depthTable = "string \<rightharpoonup> nat"

definition getOr0 :: "depthTable \<Rightarrow> string \<Rightarrow> nat" where
  "getOr0 courseDepths k = (case courseDepths k of None \<Rightarrow> 0 | Some d \<Rightarrow> d)"

text \<open>
  \<^verbatim>\<open>Math.min(...xs)\<close> and \<^verbatim>\<open>Math.max(...xs)\<close> scan their arguments from left to right.
  Without arguments they are plus and minus infinity, which no depth is: the only calls
  are behind the guard \<^verbatim>\<open>childDepths.length === 0\<close>, and the model has no equation there.
\<close>

fun Math_min :: "nat list \<Rightarrow> nat" where
  "Math_min (x # xs) = fold min xs x"

fun Math_max :: "nat list \<Rightarrow> nat" where
  "Math_max (x # xs) = fold max xs x"

fun calculatePrerequisiteDepth :: "Requirements \<Rightarrow> depthTable \<Rightarrow> nat" where
  "calculatePrerequisiteDepth (RequirementCourse course mg cc mc) courseDepths =
     getOr0 courseDepths course + 1"
| "calculatePrerequisiteDepth (RequirementGroup logic children) courseDepths =
     (if length children = 0 then 0
      else
        let childDepths =
              filter (\<lambda>depth. depth > 0)
                (map (\<lambda>child. calculatePrerequisiteDepth child courseDepths) children)
        in
          if length childDepths = 0 then 0
          else if logic = ONE_OF then Math_min childDepths
          else if logic = TWO_OF then
            (let sorted = sort childDepths
             in if length sorted \<ge> 2 then sorted ! 1 else sorted ! 0)
          else Math_max childDepths)"
| "calculatePrerequisiteDepth (RequirementCreditCount c d l g) courseDepths = 0"
| "calculatePrerequisiteDepth (RequirementCourseCount c d l g) courseDepths = 0"
| "calculatePrerequisiteDepth (RequirementStanding s) courseDepths = 0"
| "calculatePrerequisiteDepth (RequirementProgram p) courseDepths = 0"
| "calculatePrerequisiteDepth (RequirementPermission n) courseDepths = 0"
| "calculatePrerequisiteDepth (RequirementOther n) courseDepths = 0"

section \<open>Course records (types.ts)\<close>

datatype Status = Parsed | Unparsed | Blacklisted | Error

record CourseParsedRequirements =
  department :: string
  code :: string
  prerequisites :: "Requirements option"
  corequisites :: "Requirements option"
  recommendedPrerequisites :: "Requirements option"
  recommendedCorequisites :: "Requirements option"

record CourseSaveFile =
  schemaVersion :: string
  course :: string
  originalPrerequisite :: "string option"
  originalCorequisite :: "string option"
  status :: Status
  parsedRequirements :: "CourseParsedRequirements option"
  blacklistReason :: "string option"
  errorMessage :: "string option"
  lastUpdated :: string

section \<open>Depth resolution (generateNodesAndLinks, first pass)\<close>

text \<open>
  \<^verbatim>\<open>courses.filter(c => c.status === 'parsed' && c.parsedRequirements)\<close>. Every later use
  reads \<^verbatim>\<open>course.parsedRequirements!\<close>; the model keeps the requirements the filter found
  next to the course, so that the non-null assertion needs no partial operation.
\<close>

type_synonym parsedCourse = "CourseSaveFile \<times> CourseParsedRequirements"

fun parsedCoursesOf :: "CourseSaveFile list \<Rightarrow> parsedCourse list" where
  "parsedCoursesOf [] = []"
| "parsedCoursesOf (c # cs) =
     (if status c = Parsed then
        (case parsedRequirements c of
           Some req \<Rightarrow> (c, req) # parsedCoursesOf cs
         | None \<Rightarrow> parsedCoursesOf cs)
      else parsedCoursesOf cs)"

text \<open>The first \<^verbatim>\<open>forEach\<close>: every parsed course gets depth 0.\<close>

definition initDepths :: "parsedCourse list \<Rightarrow> depthTable" where
  "initDepths parsedCourses =
     fold (\<lambda>(c, req) courseDepths. courseDepths(course c \<mapsto> 0)) parsedCourses Map.empty"

text \<open>
  The body of the \<^verbatim>\<open>forEach\<close> inside the \<^verbatim>\<open>while\<close> loop, on the state it mutates: the table
  and the flag \<^verbatim>\<open>changed\<close>.
\<close>

fun relaxCourse :: "parsedCourse \<Rightarrow> depthTable \<times> bool \<Rightarrow> depthTable \<times> bool" where
  "relaxCourse (c, req) (courseDepths, changed) =
     (let courseId = course c;
          maxDepth0 = 0;
          maxDepth1 =
            (case prerequisites req of
               Some p \<Rightarrow> max maxDepth0 (calculatePrerequisiteDepth p courseDepths)
             | None \<Rightarrow> maxDepth0);
          maxDepth =
            (case corequisites req of
               Some q \<Rightarrow> max maxDepth1 (calculatePrerequisiteDepth q courseDepths)
             | None \<Rightarrow> maxDepth1);
          currentDepth = getOr0 courseDepths courseId
      in if maxDepth > currentDepth then (courseDepths(courseId \<mapsto> maxDepth), True)
         else (courseDepths, changed))"

text \<open>One pass of the \<^verbatim>\<open>while\<close> body: \<^verbatim>\<open>changed = false\<close>, then the \<^verbatim>\<open>forEach\<close>.\<close>

definition relaxPass :: "parsedCourse list \<Rightarrow> depthTable \<Rightarrow> depthTable \<times> bool" where
  "relaxPass parsedCourses courseDepths = fold relaxCourse parsedCourses (courseDepths, False)"

text \<open>
  \<^verbatim>\<open>while (changed && maxIterations > 0) { changed = false; maxIterations--; ... }\<close>
\<close>

function relaxLoop :: "parsedCourse list \<Rightarrow> bool \<Rightarrow> nat \<Rightarrow> depthTable \<Rightarrow> depthTable" where
  "relaxLoop parsedCourses changed maxIterations courseDepths =
     (if changed \<and> maxIterations > 0 then
        (case relaxPass parsedCourses courseDepths of
           (courseDepths', changed') \<Rightarrow>
             relaxLoop parsedCourses changed' (maxIterations - 1) courseDepths')
      else courseDepths)"
  by pat_completeness auto
termination
  by (relation "measure (\<lambda>(cs, ch, n, t). n)") auto

declare relaxLoop.simps [simp del]

definition resolveDepths :: "parsedCourse list \<Rightarrow> depthTable" where
  "resolveDepths parsedCourses = relaxLoop parsedCourses True 10 (initDepths parsedCourses)"

section \<open>Graph assembly (generateNodesAndLinks, second pass)\<close>

record Node =
  node_id :: string
  title :: string
  dept :: string
  node_size :: nat
  depth :: nat

record Link =
  source :: string
  target :: string
  "value" :: real

text \<open>
  \<^verbatim>\<open>nodesMap\<close> and \<^verbatim>\<open>linkMap\<close> are JavaScript Maps, whose \<^verbatim>\<open>values()\<close> come in
  insertion order: association lists with distinct keys, \<^verbatim>\<open>has\<close>/\<^verbatim>\<open>get\<close> being
  \<^const>\<open>map_of\<close> and \<^verbatim>\<open>set\<close> being \<^const>\<open>AList.update\<close> (replace in place, or append).
\<close>

type_synonym 'v jsMap = "(string \<times> 'v) list"

text \<open>\<^verbatim>\<open>id.split(' ')[0] || 'UNKNOWN'\<close>\<close>

definition deptOf :: "string \<Rightarrow> string" where
  "deptOf cid =
     (let first = takeWhile (\<lambda>ch. ch \<noteq> CHR '' '') cid
      in if first = [] then ''UNKNOWN'' else first)"

text \<open>\<^verbatim>\<open>if (!nodesMap.has(id)) nodesMap.set(id, {id, title: id, dept, size: 0, depth})\<close>\<close>

definition addNode :: "Node jsMap \<Rightarrow> string \<Rightarrow> string \<Rightarrow> nat \<Rightarrow> Node jsMap" where
  "addNode nodesMap cid d dp =
     (if map_of nodesMap cid = None then
        AList.update cid \<lparr>node_id = cid, title = cid, dept = d, node_size = 0, depth = dp\<rparr> nodesMap
      else nodesMap)"

text \<open>\<^verbatim>\<open>Math.round(value * 100) / 100\<close>; \<^verbatim>\<open>Math.round\<close> rounds halves upwards, as \<^const>\<open>round\<close>.\<close>

definition roundedValueOf :: "real \<Rightarrow> real" where
  "roundedValueOf v = real_of_int (round (v * 100)) / 100"

text \<open>
  The registration of one link, written three times in the source:
  \<^verbatim>\<open>if (!linkMap.has(linkKey) || linkMap.get(linkKey)!.value < roundedValue)
       linkMap.set(linkKey, {source, target, value: roundedValue})\<close>
  with \<^verbatim>\<open>linkKey = `${source}->${target}`\<close>.
\<close>

definition linkKeyOf :: "string \<Rightarrow> string \<Rightarrow> string" where
  "linkKeyOf src tgt = src @ ''->'' @ tgt"

definition registerLink :: "Link jsMap \<Rightarrow> string \<Rightarrow> string \<Rightarrow> real \<Rightarrow> Link jsMap" where
  "registerLink linkMap src tgt roundedValue =
     (let linkKey = linkKeyOf src tgt
      in case map_of linkMap linkKey of
           None \<Rightarrow>
             AList.update linkKey \<lparr>source = src, target = tgt, value = roundedValue\<rparr> linkMap
         | Some old \<Rightarrow>
             if value old < roundedValue then
               AList.update linkKey \<lparr>source = src, target = tgt, value = roundedValue\<rparr> linkMap
             else linkMap)"

text \<open>The body of the loop over \<^verbatim>\<open>prerequisiteCourses\<close>.\<close>

fun prereqStep ::
  "string \<Rightarrow> depthTable \<Rightarrow> string \<times> real \<Rightarrow> Node jsMap \<times> Link jsMap \<Rightarrow> Node jsMap \<times> Link jsMap" where
  "prereqStep targetId courseDepths (prereqId, v) (nodesMap, linkMap) =
     (let prereqDept = deptOf prereqId;
          nodesMap' = addNode nodesMap prereqId prereqDept (getOr0 courseDepths prereqId);
          roundedValue = roundedValueOf v
      in (nodesMap', registerLink linkMap prereqId targetId roundedValue))"

text \<open>The body of the loop over \<^verbatim>\<open>corequisiteCourses\<close>: both directions.\<close>

fun coreqStep ::
  "string \<Rightarrow> depthTable \<Rightarrow> string \<times> real \<Rightarrow> Node jsMap \<times> Link jsMap \<Rightarrow> Node jsMap \<times> Link jsMap" where
  "coreqStep targetId courseDepths (coreqId, v) (nodesMap, linkMap) =
     (let coreqDept = deptOf coreqId;
          nodesMap' = addNode nodesMap coreqId coreqDept (getOr0 courseDepths coreqId);
          roundedValue = roundedValueOf v;
          linkMap1 = registerLink linkMap coreqId targetId roundedValue;
          linkMap2 = registerLink linkMap1 targetId coreqId roundedValue
      in (nodesMap', linkMap2))"

text \<open>The body of the loop \<^verbatim>\<open>for (const course of parsedCourses)\<close>.\<close>

fun courseStep ::
  "depthTable \<Rightarrow> parsedCourse \<Rightarrow> Node jsMap \<times> Link jsMap \<Rightarrow> Node jsMap \<times> Link jsMap" where
  "courseStep courseDepths (c, req) (nodesMap, linkMap) =
     (let targetId = course c;
          st0 = (addNode nodesMap targetId (department req) (getOr0 courseDepths targetId), linkMap);
          st1 =
            (case prerequisites req of
               Some p \<Rightarrow>
                 fold (prereqStep targetId courseDepths)
                   (extractCourseRequirementsWithValues p 1) st0
             | None \<Rightarrow> st0)
      in (case corequisites req of
            Some q \<Rightarrow>
              fold (coreqStep targetId courseDepths)
                (extractCourseRequirementsWithValues q 1) st1
          | None \<Rightarrow> st1))"

record Graph =
  nodes :: "Node list"
  links :: "Link list"

definition generateNodesAndLinks :: "CourseSaveFile list \<Rightarrow> Graph" where
  "generateNodesAndLinks courses =
     (let parsedCourses = parsedCoursesOf courses;
          courseDepths = resolveDepths parsedCourses
      in case fold (courseStep courseDepths) parsedCourses ([], []) of
           (nodesMap, linkMap) \<Rightarrow>
             let linkArray = map snd linkMap;
                 incomingCounts =
                   fold (\<lambda>link counts. counts(target link \<mapsto> getOr0 counts (target link) + 1))
                     linkArray Map.empty;
                 sizedNodes =
                   map (\<lambda>(cid, node). node\<lparr>node_size := getOr0 incomingCounts cid\<rparr>) nodesMap;
                 linkedNodeIds =
                   fold (\<lambda>link ids. insert (target link) (insert (source link) ids)) linkArray {};
                 prunedNodes = filter (\<lambda>node. node_id node \<in> linkedNodeIds) sizedNodes
             in \<lparr>nodes = prunedNodes, links = linkArray\<rparr>)"


section \<open>Untyped values (the validator's input)\<close>

text \<open>
  The validator takes \<^verbatim>\<open>data: any\<close>: the result of \<^verbatim>\<open>JSON.parse\<close> on the reply of the
  text-generation service, or \<^verbatim>\<open>undefined\<close>. An object is the list of its own properties;
  numbers are reals, as above.
\<close>

datatype jsValue =
    JUndefined
  | JNull
  | JBool bool
  | JNum real
  | JStr string
  | JArr "jsValue list"
  | JObj "(string \<times> jsValue) list"

text \<open>The exception of the language that the validator's code could meet.\<close>

datatype jsError = TypeError string

text \<open>\<^verbatim>\<open>!v\<close> is \<open>\<not> truthy v\<close>; \<^verbatim>\<open>typeof v\<close>; \<^verbatim>\<open>Array.isArray(v)\<close>.\<close>

fun truthy :: "jsValue \<Rightarrow> bool" where
  "truthy JUndefined = False"
| "truthy JNull = False"
| "truthy (JBool b) = b"
| "truthy (JNum n) = (n \<noteq> 0)"
| "truthy (JStr s) = (s \<noteq> [])"
| "truthy (JArr xs) = True"
| "truthy (JObj kvs) = True"

fun typeof :: "jsValue \<Rightarrow> string" where
  "typeof JUndefined = ''undefined''"
| "typeof JNull = ''object''"
| "typeof (JBool b) = ''boolean''"
| "typeof (JNum n) = ''number''"
| "typeof (JStr s) = ''string''"
| "typeof (JArr xs) = ''object''"
| "typeof (JObj kvs) = ''object''"

text \<open>The decimal numeral of a natural number, as a template literal prints an index.\<close>

function showNat :: "nat \<Rightarrow> string" where
  "showNat n =
     (if n < 10 then [''0123456789'' ! n]
      else showNat (n div 10) @ [''0123456789'' ! (n mod 10)])"
  by pat_completeness auto
termination
  by (relation "measure id") auto

declare showNat.simps [simp del]

text \<open>
  Reading the property \<^verbatim>\<open>v.name\<close>. On \<^verbatim>\<open>undefined\<close> and \<^verbatim>\<open>null\<close> it throws a TypeError.
  An object gives its own property or \<^verbatim>\<open>undefined\<close>; an array and a string have
  \<^verbatim>\<open>length\<close> and their indices; a boolean and a number have no own property. Inherited
  methods are not data, and no name the validator reads is one.
\<close>

fun getProp :: "jsValue \<Rightarrow> string \<Rightarrow> jsError + jsValue" where
  "getProp JUndefined name = Inl (TypeError name)"
| "getProp JNull name = Inl (TypeError name)"
| "getProp (JBool b) name = Inr JUndefined"
| "getProp (JNum n) name = Inr JUndefined"
| "getProp (JStr s) name =
     (if name = ''length'' then Inr (JNum (real (length s)))
      else case find (\<lambda>i. showNat i = name) [0..<length s] of
             Some i \<Rightarrow> Inr (JStr [s ! i])
           | None \<Rightarrow> Inr JUndefined)"
| "getProp (JArr xs) name =
     (if name = ''length'' then Inr (JNum (real (length xs)))
      else case find (\<lambda>i. showNat i = name) [0..<length xs] of
             Some i \<Rightarrow> Inr (xs ! i)
           | None \<Rightarrow> Inr JUndefined)"
| "getProp (JObj kvs) name =
     (case map_of kvs name of Some v \<Rightarrow> Inr v | None \<Rightarrow> Inr JUndefined)"

text \<open>Sequencing of computations that may throw.\<close>

definition bindE :: "jsError + 'a \<Rightarrow> ('a \<Rightarrow> jsError + 'b) \<Rightarrow> jsError + 'b" where
  "bindE m f = (case m of Inl e \<Rightarrow> Inl e | Inr x \<Rightarrow> f x)"

section \<open>The schema validator (utilities.ts)\<close>

text \<open>The result object \<^verbatim>\<open>{ isValid: boolean; error?: string }\<close>.\<close>

record ValidationResult =
  isValid :: bool
  error :: "string option"

definition valid :: ValidationResult where
  "valid = \<lparr>isValid = True, error = None\<rparr>"

definition invalid :: "string \<Rightarrow> ValidationResult" where
  "invalid msg = \<lparr>isValid = False, error = Some msg\<rparr>"

text \<open>\<^verbatim>\<open>${r.error}\<close> in a template literal.\<close>

definition errorText :: "ValidationResult \<Rightarrow> string" where
  "errorText r = (case error r of Some e \<Rightarrow> e | None \<Rightarrow> ''undefined'')"

text \<open>
  The repository holds the validator twice: in \<^verbatim>\<open>source/utilities.ts\<close> and in an earlier
  copy (\<^verbatim>\<open>part_000\<close>), which also checks a group's \<^verbatim>\<open>recommended\<close> field after its
  children and words one message differently. The first argument of every validator
  function selects the copy.
\<close>

datatype validatorCopy = UtilitiesTs | Part000

text \<open>\<^verbatim>\<open>[...].includes(v)\<close> on an array of string literals.\<close>

definition includesStr :: "string list \<Rightarrow> jsValue \<Rightarrow> bool" where
  "includesStr xs v = (case v of JStr s \<Rightarrow> s \<in> set xs | _ \<Rightarrow> False)"

text \<open>
  \<^verbatim>\<open>v !== undefined && (typeof v !== 'number' || v < 0 || v > 100)\<close>, the test on
  \<^verbatim>\<open>minGrade\<close> in three validators.
\<close>

definition badMinGrade :: "jsValue \<Rightarrow> bool" where
  "badMinGrade v =
     (v \<noteq> JUndefined \<and> (case v of JNum n \<Rightarrow> n < 0 \<or> n > 100 | _ \<Rightarrow> True))"

text \<open>\<^verbatim>\<open>!v || typeof v !== 'number' || v <= 0\<close>, the test on \<^verbatim>\<open>credits\<close> and \<^verbatim>\<open>count\<close>.\<close>

definition notPositiveNumber :: "jsValue \<Rightarrow> bool" where
  "notPositiveNumber v =
     (\<not> truthy v \<or> (case v of JNum n \<Rightarrow> n \<le> 0 | _ \<Rightarrow> True))"

definition validLevels :: "string list" where
  "validLevels = [''100'', ''200'', ''300'', ''400'']"

definition validateRequirementCourse :: "validatorCopy \<Rightarrow> jsValue \<Rightarrow> jsError + ValidationResult" where
  "validateRequirementCourse v req =
     bindE (getProp req ''course'') (\<lambda>course.
       if \<not> truthy course \<or> typeof course \<noteq> ''string'' then
         Inr (invalid ''Course requirement must have a course field'')
       else bindE (getProp req ''minGrade'') (\<lambda>minGrade.
         if badMinGrade minGrade then
           Inr (invalid ''minGrade must be a number between 0 and 100'')
         else bindE (getProp req ''canBeTakenConcurrently'') (\<lambda>canBe.
           if canBe \<noteq> JUndefined \<and> typeof canBe \<noteq> ''boolean'' then
             Inr (invalid ''canBeTakenConcurrently must be a boolean'')
           else bindE (getProp req ''mustBeTakenConcurrently'') (\<lambda>mustBe.
             if mustBe \<noteq> JUndefined \<and> typeof mustBe \<noteq> ''boolean'' then
               Inr (invalid ''mustBeTakenConcurrently must be a boolean'')
             else Inr valid))))"

text \<open>
  The checks of the optional fields \<^verbatim>\<open>department\<close>, \<^verbatim>\<open>level\<close> and \<^verbatim>\<open>minGrade\<close> are
  written out in both \<^verbatim>\<open>validateRequirementCreditCount\<close> and
  \<^verbatim>\<open>validateRequirementCourseCount\<close>. Each block yields the \<^verbatim>\<open>return\<close> it takes, or
  \<open>None\<close> when control goes on to the next statement.
\<close>

definition checkDepartment :: "jsValue \<Rightarrow> ValidationResult option" where
  "checkDepartment dep =
     (if dep \<noteq> JUndefined then
        (if typeof dep = ''string'' then None
         else
           (case dep of
              JArr ds \<Rightarrow>
                if \<not> list_all (\<lambda>d. typeof d = ''string'') ds
                then Some (invalid ''department array must contain only strings'')
                else None
            | _ \<Rightarrow> Some (invalid ''department must be a string or array of strings'')))
      else None)"

definition checkLevel :: "validatorCopy \<Rightarrow> jsValue \<Rightarrow> ValidationResult option" where
  "checkLevel v level =
     (if level \<noteq> JUndefined then
        (if typeof level = ''string'' then
           (if \<not> includesStr validLevels level
            then Some (invalid ''level must be one of: 100, 200, 300, 400'')
            else None)
         else
           (case level of
              JArr ls \<Rightarrow>
                if \<not> list_all (\<lambda>l. typeof l = ''string'' \<and> includesStr validLevels l) ls
                then Some (invalid
                  (if v = UtilitiesTs
                   then ''level array must contain only valid levels: 100, 200, 300, 400''
                   else ''level array must contain only valid level strings (100, 200, 300, 400)''))
                else None
            | _ \<Rightarrow> Some (invalid ''level must be a string or array of strings'')))
      else None)"

definition validateCountOptions :: "validatorCopy \<Rightarrow> jsValue \<Rightarrow> jsError + ValidationResult" where
  "validateCountOptions v req =
     bindE (getProp req ''department'') (\<lambda>dep.
       case checkDepartment dep of
         Some r \<Rightarrow> Inr r
       | None \<Rightarrow>
           bindE (getProp req ''level'') (\<lambda>level.
             case checkLevel v level of
               Some r \<Rightarrow> Inr r
             | None \<Rightarrow>
                 bindE (getProp req ''minGrade'') (\<lambda>minGrade.
                   if badMinGrade minGrade then
                     Inr (invalid ''minGrade must be a number between 0 and 100'')
                   else Inr valid)))"

definition validateRequirementCreditCount :: "validatorCopy \<Rightarrow> jsValue \<Rightarrow> jsError + ValidationResult" where
  "validateRequirementCreditCount v req =
     bindE (getProp req ''credits'') (\<lambda>credits.
       if notPositiveNumber credits then
         Inr (invalid ''Credit count requirement must have a positive credits field'')
       else validateCountOptions v req)"

definition validateRequirementCourseCount :: "validatorCopy \<Rightarrow> jsValue \<Rightarrow> jsError + ValidationResult" where
  "validateRequirementCourseCount v req =
     bindE (getProp req ''count'') (\<lambda>count.
       if notPositiveNumber count then
         Inr (invalid ''Course count requirement must have a positive count field'')
       else validateCountOptions v req)"

definition validateRequirementStanding :: "validatorCopy \<Rightarrow> jsValue \<Rightarrow> jsError + ValidationResult" where
  "validateRequirementStanding v req =
     bindE (getProp req ''standing'') (\<lambda>standing.
       if \<not> truthy standing \<or>
          \<not> includesStr [''1st'', ''2nd'', ''3rd'', ''4th'', ''graduate''] standing then
         Inr (invalid ''Standing requirement must have a valid standing field'')
       else Inr valid)"

definition validateRequirementProgram :: "validatorCopy \<Rightarrow> jsValue \<Rightarrow> jsError + ValidationResult" where
  "validateRequirementProgram v req =
     bindE (getProp req ''program'') (\<lambda>program.
       if \<not> truthy program \<or> typeof program \<noteq> ''string'' then
         Inr (invalid ''Program requirement must have a program field'')
       else Inr valid)"

definition validateRequirementPermission :: "validatorCopy \<Rightarrow> jsValue \<Rightarrow> jsError + ValidationResult" where
  "validateRequirementPermission v req =
     bindE (getProp req ''note'') (\<lambda>note.
       if \<not> truthy note \<or> typeof note \<noteq> ''string'' then
         Inr (invalid ''Permission requirement must have a note field'')
       else Inr valid)"

definition validateRequirementOther :: "validatorCopy \<Rightarrow> jsValue \<Rightarrow> jsError + ValidationResult" where
  "validateRequirementOther v req =
     bindE (getProp req ''note'') (\<lambda>note.
       if \<not> truthy note \<or> typeof note \<noteq> ''string'' then
         Inr (invalid ''Other requirement must have a note field'')
       else Inr valid)"

text \<open>
  \<^verbatim>\<open>validateRequirements\<close> and \<^verbatim>\<open>validateRequirementGroup\<close> call each other. The
  \<^verbatim>\<open>for\<close> loop over the children is \<open>validateChildren\<close>, from the index \<open>i\<close> on: it yields
  the \<^verbatim>\<open>return\<close> taken inside the loop, or \<open>None\<close> when the loop runs to its end.
\<close>

function validateRequirements :: "validatorCopy \<Rightarrow> jsValue \<Rightarrow> jsError + ValidationResult"
  and validateRequirementGroup :: "validatorCopy \<Rightarrow> jsValue \<Rightarrow> jsError + ValidationResult"
  and validateChildren ::
    "validatorCopy \<Rightarrow> jsValue list \<Rightarrow> nat \<Rightarrow> jsError + ValidationResult option"
where
  "validateRequirements v req =
     (if \<not> truthy req \<or> typeof req \<noteq> ''object'' then
        Inr (invalid ''Requirement must be an object'')
      else
        (case getProp req ''type'' of
           Inl e \<Rightarrow> Inl e
         | Inr ty \<Rightarrow>
             (case ty of
                JStr t \<Rightarrow>
                  if t = [] then Inr (invalid ''Requirement must have a valid type field'')
                  else if t = ''group'' then validateRequirementGroup v req
                  else if t = ''course'' then validateRequirementCourse v req
                  else if t = ''credit_count'' then validateRequirementCreditCount v req
                  else if t = ''course_count'' then validateRequirementCourseCount v req
                  else if t = ''standing'' then validateRequirementStanding v req
                  else if t = ''program'' then validateRequirementProgram v req
                  else if t = ''permission'' then validateRequirementPermission v req
                  else if t = ''other'' then validateRequirementOther v req
                  else Inr (invalid (''Unknown requirement type: '' @ t))
              | _ \<Rightarrow> Inr (invalid ''Requirement must have a valid type field''))))"
| "validateRequirementGroup v req =
     (case getProp req ''logic'' of
        Inl e \<Rightarrow> Inl e
      | Inr logic \<Rightarrow>
          if \<not> truthy logic \<or> \<not> includesStr [''ALL_OF'', ''ONE_OF'', ''TWO_OF''] logic then
            Inr (invalid ''Group must have logic field with value ALL_OF, ONE_OF, or TWO_OF'')
          else
            (case getProp req ''children'' of
               Inl e \<Rightarrow> Inl e
             | Inr ch \<Rightarrow>
                 (case ch of
                    JArr children \<Rightarrow>
                      if length children = 0 then
                        Inr (invalid ''Group must have at least one child'')
                      else
                        (case validateChildren v children 0 of
                           Inl e \<Rightarrow> Inl e
                         | Inr (Some r) \<Rightarrow> Inr r
                         | Inr None \<Rightarrow>
                             if v = Part000 then
                               (case getProp req ''recommended'' of
                                  Inl e \<Rightarrow> Inl e
                                | Inr recommended \<Rightarrow>
                                    if recommended \<noteq> JUndefined \<and> recommended \<noteq> JStr ''true''
                                    then Inr (invalid
                                      ''recommended field must be \"true\" if present'')
                                    else Inr valid)
                             else Inr valid)
                  | _ \<Rightarrow> Inr (invalid ''Group must have children array''))))"
| "validateChildren v children i =
     (if i < length children then
        (case validateRequirements v (children ! i) of
           Inl e \<Rightarrow> Inl e
         | Inr childValidation \<Rightarrow>
             if \<not> isValid childValidation then
               Inr (Some (invalid
                 (''Invalid child at index '' @ showNat i @ '': '' @ errorText childValidation)))
             else validateChildren v children (i + 1))
      else Inr None)"
  by pat_completeness auto
termination
proof (relation "measures
    [\<lambda>x. case x of
        Inl (v, req) \<Rightarrow> size req
      | Inr (Inl (v, req)) \<Rightarrow> size req
      | Inr (Inr (v, children, i)) \<Rightarrow> size_list size children,
     \<lambda>x. case x of
        Inl (v, req) \<Rightarrow> 1
      | Inr (Inl (v, req)) \<Rightarrow> 0
      | Inr (Inr (v, children, i)) \<Rightarrow> length children - i]")
  show "wf (measures
    [\<lambda>x. case x of
        Inl (v, req) \<Rightarrow> size req
      | Inr (Inl (v, req)) \<Rightarrow> size req
      | Inr (Inr (v, children, i)) \<Rightarrow> size_list size children,
     \<lambda>x. case x of
        Inl (v :: validatorCopy, req :: jsValue) \<Rightarrow> 1
      | Inr (Inl (v :: validatorCopy, req :: jsValue)) \<Rightarrow> 0
      | Inr (Inr (v :: validatorCopy, children :: jsValue list, i)) \<Rightarrow> length children - i])"
    by simp
next
  fix v :: validatorCopy and req :: jsValue and x2 :: jsValue and children :: "jsValue list"
  assume "getProp req ''children'' = Inr x2" and "x2 = JArr children"
  then have g: "getProp req ''children'' = Inr (JArr children)" by simp
  have "size_list size children < size req"
  proof (cases req)
    case (JObj kvs)
    with g have "map_of kvs ''children'' = Some (JArr children)"
      by (simp split: option.splits)
    then have "(''children'', JArr children) \<in> set kvs" by (rule map_of_SomeD)
    then have "size (JArr children) < Suc (size_list (size_prod (\<lambda>_. 0) size) kvs)"
      by (induction kvs) auto
    then show ?thesis using JObj by simp
  next
    case (JArr xs)
    with g obtain i where "i < length xs" "xs ! i = JArr children"
      by (auto split: if_splits option.splits dest!: find_Some_iff [THEN iffD1])
    then have "JArr children \<in> set xs" by (metis nth_mem)
    then have "size (JArr children) < Suc (size_list size xs)"
      by (induction xs) auto
    then show ?thesis using JArr by simp
  qed (use g in \<open>auto split: if_splits option.splits\<close>)
  then show "((Inr (Inr (v, children, 0)), Inr (Inl (v, req))) \<in> measures
    [\<lambda>x. case x of
        Inl (v, req) \<Rightarrow> size req
      | Inr (Inl (v, req)) \<Rightarrow> size req
      | Inr (Inr (v, children, i)) \<Rightarrow> size_list size children,
     \<lambda>x. case x of
        Inl (v, req) \<Rightarrow> 1
      | Inr (Inl (v, req)) \<Rightarrow> 0
      | Inr (Inr (v, children, i)) \<Rightarrow> length children - i])"
    by simp
next
  fix v :: validatorCopy and children :: "jsValue list" and i :: nat
  assume "i < length children"
  then have "children ! i \<in> set children" by simp
  moreover have "x \<in> set children \<Longrightarrow> size x < size_list size children" for x
    by (induction children) auto
  ultimately have "size (children ! i) < size_list size children" by blast
  then show "((Inl (v, children ! i), Inr (Inr (v, children, i))) \<in> measures
    [\<lambda>x. case x of
        Inl (v, req) \<Rightarrow> size req
      | Inr (Inl (v, req)) \<Rightarrow> size req
      | Inr (Inr (v, children, i)) \<Rightarrow> size_list size children,
     \<lambda>x. case x of
        Inl (v, req) \<Rightarrow> 1
      | Inr (Inl (v, req)) \<Rightarrow> 0
      | Inr (Inr (v, children, i)) \<Rightarrow> length children - i])"
    by simp
qed auto

declare validateRequirements.simps [simp del]
declare validateRequirementGroup.simps [simp del]
declare validateChildren.simps [simp del]

text \<open>
  One of the four blocks \<^verbatim>\<open>if (data.f) { const r = validateRequirements(data.f);
  if (!r.isValid) return { isValid: false, error: `Invalid ...: ${r.error}` }; }\<close>: it
  yields the \<^verbatim>\<open>return\<close> taken, or \<open>None\<close>.
\<close>

definition validateField ::
  "validatorCopy \<Rightarrow> jsValue \<Rightarrow> string \<Rightarrow> string \<Rightarrow> jsError + ValidationResult option" where
  "validateField v data name label =
     bindE (getProp data name) (\<lambda>field.
       if truthy field then
         bindE (validateRequirements v field) (\<lambda>r.
           if \<not> isValid r then
             Inr (Some (invalid (''Invalid '' @ label @ '': '' @ errorText r)))
           else Inr None)
       else Inr None)"

text \<open>Running the next statement unless the previous block returned.\<close>

definition unlessReturned ::
  "jsError + ValidationResult option \<Rightarrow> (jsError + ValidationResult) \<Rightarrow> jsError + ValidationResult" where
  "unlessReturned m rest =
     (case m of Inl e \<Rightarrow> Inl e | Inr (Some r) \<Rightarrow> Inr r | Inr None \<Rightarrow> rest)"

text \<open>The body of the \<^verbatim>\<open>try\<close> block of \<^verbatim>\<open>validateParsedRequirements\<close>.\<close>

definition validateParsedRequirementsTry :: "validatorCopy \<Rightarrow> jsValue \<Rightarrow> jsError + ValidationResult" where
  "validateParsedRequirementsTry v data =
     (if \<not> truthy data \<or> typeof data \<noteq> ''object'' then
        Inr (invalid ''Data must be an object'')
      else bindE (getProp data ''department'') (\<lambda>dep.
        if \<not> truthy dep \<or> typeof dep \<noteq> ''string'' then
          Inr (invalid ''Missing or invalid department field'')
        else bindE (getProp data ''code'') (\<lambda>cd.
          if \<not> truthy cd \<or> typeof cd \<noteq> ''string'' then
            Inr (invalid ''Missing or invalid code field'')
          else
            unlessReturned (validateField v data ''prerequisites'' ''prerequisites'')
           (unlessReturned (validateField v data ''corequisites'' ''corequisites'')
           (unlessReturned
              (validateField v data ''recommendedPrerequisites'' ''recommended prerequisites'')
           (unlessReturned
              (validateField v data ''recommendedCorequisites'' ''recommended corequisites'')
           (Inr valid)))))))"

text \<open>
  \<^verbatim>\<open>validateParsedRequirements\<close>: the \<^verbatim>\<open>catch\<close> turns an exception into a result whose
  text is the exception's message.
\<close>

definition validateParsedRequirements :: "validatorCopy \<Rightarrow> jsValue \<Rightarrow> ValidationResult" where
  "validateParsedRequirements v data =
     (case validateParsedRequirementsTry v data of
        Inr r \<Rightarrow> r
      | Inl (TypeError msg) \<Rightarrow> invalid (''Validation error: '' @ msg))"

section \<open>Reference notions and sample inputs\<close>

text \<open>
  The \<^verbatim>\<open>course\<close> leaves of a tree in document order (depth first, children from left to
  right), as the specification words the extractor's result.
\<close>

fun course_leaves :: "Requirements \<Rightarrow> string list" where
  "course_leaves (RequirementCourse c mg cc mc) = [c]"
| "course_leaves (RequirementGroup logic children) = concat (map course_leaves children)"
| "course_leaves (RequirementCreditCount c d l g) = []"
| "course_leaves (RequirementCourseCount c d l g) = []"
| "course_leaves (RequirementStanding s) = []"
| "course_leaves (RequirementProgram p) = []"
| "course_leaves (RequirementPermission n) = []"
| "course_leaves (RequirementOther n) = []"

text \<open>A course leaf without optional fields, and a parsed save file with the given trees.\<close>

definition courseLeaf :: "string \<Rightarrow> Requirements" where
  "courseLeaf cid = RequirementCourse cid None None None"

definition parsedFile ::
  "string \<Rightarrow> Requirements option \<Rightarrow> Requirements option \<Rightarrow> CourseSaveFile" where
  "parsedFile cid pre co =
     \<lparr>schemaVersion = ''UBCv0.1'', course = cid, originalPrerequisite = None,
      originalCorequisite = None, status = Parsed,
      parsedRequirements =
        Some \<lparr>department = deptOf cid, code = '''', prerequisites = pre, corequisites = co,
              recommendedPrerequisites = None, recommendedCorequisites = None\<rparr>,
      blacklistReason = None, errorMessage = None, lastUpdated = ''''\<rparr>"


text \<open>
  The links a list of parsed courses can register: for a course leaf \<open>cid\<close> of weight \<open>w\<close>
  in the prerequisite tree of course \<open>c\<close>, the link from \<open>cid\<close> to \<open>c\<close>; for one in the
  corequisite tree, that link and the link from \<open>c\<close> to \<open>cid\<close>; each with the value
  \<open>w\<close> rounded to two decimals.
\<close>

definition registeredBy :: "parsedCourse \<Rightarrow> Link \<Rightarrow> bool" where
  "registeredBy cr l =
     (case cr of (c, req) \<Rightarrow>
        (case prerequisites req of
           None \<Rightarrow> False
         | Some p \<Rightarrow>
             list_ex (\<lambda>(cid, w). l = \<lparr>source = cid, target = course c, value = roundedValueOf w\<rparr>)
               (extractCourseRequirementsWithValues p 1)) \<or>
        (case corequisites req of
           None \<Rightarrow> False
         | Some q \<Rightarrow>
             list_ex (\<lambda>(cid, w).
                 l = \<lparr>source = cid, target = course c, value = roundedValueOf w\<rparr> \<or>
                 l = \<lparr>source = course c, target = cid, value = roundedValueOf w\<rparr>)
               (extractCourseRequirementsWithValues q 1)))"








text \<open>
  The values whose properties can be read without an exception and that pass the test
  \<^verbatim>\<open>!x || typeof x !== 'object'\<close>: objects and arrays.
\<close>

definition objectLike :: "jsValue \<Rightarrow> bool" where
  "objectLike x = (truthy x \<and> typeof x = ''object'')"

text \<open>A result is \<^verbatim>\<open>{ isValid: true }\<close>, or has \<^verbatim>\<open>isValid: false\<close> and an error message.\<close>

definition wellFormedResult :: "ValidationResult \<Rightarrow> bool" where
  "wellFormedResult r = (r = valid \<or> (\<not> isValid r \<and> error r \<noteq> None))"

section \<open>Properties of the dependency extractor\<close>

lemma extractChildren_concat:
  "extractChildren cs v acc =
     acc @ concat (map (\<lambda>c. extractCourseRequirementsWithValues c v) cs)"
  by (induction cs arbitrary: acc) simp_all

text \<open>
  Claim C1. A course leaf is emitted at the current weight. A group hands a weight to each
  child and concatenates the children's results: \<^verbatim>\<open>ALL_OF\<close> hands down the weight
  unchanged, \<^verbatim>\<open>ONE_OF\<close> the weight divided by the number of children, \<^verbatim>\<open>TWO_OF\<close> twice
  the weight divided by the number of children. This holds for every weight, positive or
  not. \<^verbatim>\<open>ALL_OF[A, ONE_OF[B, C]]\<close> at weight 1 gives A:1, B:0.5, C:0.5.
\<close>

theorem extract_weight_by_logic:
  "extractCourseRequirementsWithValues (RequirementCourse c mg cc mc) w = [(c, w)] \<and>
   extractCourseRequirementsWithValues (RequirementGroup ALL_OF cs) w =
     concat (map (\<lambda>ch. extractCourseRequirementsWithValues ch w) cs) \<and>
   extractCourseRequirementsWithValues (RequirementGroup ONE_OF cs) w =
     concat (map (\<lambda>ch. extractCourseRequirementsWithValues ch (w / real (length cs))) cs) \<and>
   extractCourseRequirementsWithValues (RequirementGroup TWO_OF cs) w =
     concat (map (\<lambda>ch. extractCourseRequirementsWithValues ch ((w * 2) / real (length cs))) cs) \<and>
   extractCourseRequirementsWithValues
     (RequirementGroup ALL_OF
        [RequirementCourse ''A'' None None None,
         RequirementGroup ONE_OF
           [RequirementCourse ''B'' None None None, RequirementCourse ''C'' None None None]]) 1
     = [(''A'', 1), (''B'', 1 / 2), (''C'', 1 / 2)]"
  by (simp add: extractChildren_concat Let_def)

theorem extract_weight_by_logic_witness:
  "extractCourseRequirementsWithValues
     (RequirementGroup TWO_OF
        [courseLeaf ''P'', courseLeaf ''Q'', courseLeaf ''R'', courseLeaf ''S'']) 3
     = [(''P'', 3 / 2), (''Q'', 3 / 2), (''R'', 3 / 2), (''S'', 3 / 2)]"
  using extract_weight_by_logic
    [of "''P''" None None None 3
        "[courseLeaf ''P'', courseLeaf ''Q'', courseLeaf ''R'', courseLeaf ''S'']"]
  by (simp add: courseLeaf_def)

text \<open>
  Claim C3. For every tree (so for every tree the validator accepts) and every base
  weight, the course identifiers of the emitted pairs are exactly the course leaves of the
  tree in document order, one pair per leaf, hence also the same multiset; a node that is
  neither a group nor a course emits nothing.
\<close>

theorem extract_course_leaves:
  "map fst (extractCourseRequirementsWithValues t w) = course_leaves t \<and>
   length (extractCourseRequirementsWithValues t w) = length (course_leaves t) \<and>
   mset (map fst (extractCourseRequirementsWithValues t w)) = mset (course_leaves t) \<and>
   ((\<forall>logic cs. t \<noteq> RequirementGroup logic cs) \<and>
    (\<forall>c mg cc mc. t \<noteq> RequirementCourse c mg cc mc) \<longrightarrow>
      extractCourseRequirementsWithValues t w = [])"
proof -
  have leaves: "map fst (extractCourseRequirementsWithValues t w) = course_leaves t" for w
  proof (induction t arbitrary: w)
    case (RequirementGroup logic cs)
    have "map fst (concat (map (\<lambda>c. extractCourseRequirementsWithValues c v) cs))
          = concat (map course_leaves cs)" for v
      using RequirementGroup.IH by (simp add: map_concat cong: map_cong)
    then show ?case by (simp add: extractChildren_concat Let_def)
  qed simp_all
  have len: "length (extractCourseRequirementsWithValues t w) = length (course_leaves t)"
    using leaves [of w] by (metis length_map)
  have other: "(\<forall>logic cs. t \<noteq> RequirementGroup logic cs) \<and>
    (\<forall>c mg cc mc. t \<noteq> RequirementCourse c mg cc mc) \<longrightarrow>
      extractCourseRequirementsWithValues t w = []"
    by (cases t) simp_all
  show ?thesis using leaves [of w] len other by simp
qed

theorem extract_course_leaves_witness:
  "map fst (extractCourseRequirementsWithValues
      (RequirementGroup ONE_OF
         [courseLeaf ''B'', RequirementStanding S3rd,
          RequirementGroup ALL_OF [courseLeaf ''A'', courseLeaf ''B'']]) 1)
     = [''B'', ''A'', ''B''] \<and>
   extractCourseRequirementsWithValues (RequirementStanding S3rd) 1 = []"
  using extract_course_leaves [of "RequirementGroup ONE_OF
         [courseLeaf ''B'', RequirementStanding S3rd,
          RequirementGroup ALL_OF [courseLeaf ''A'', courseLeaf ''B'']]" 1]
    extract_course_leaves [of "RequirementStanding S3rd" 1]
  by (simp add: courseLeaf_def)

section \<open>Properties of the depth combinator\<close>

lemma Math_min_eq: "xs \<noteq> [] \<Longrightarrow> Math_min xs = Min (set xs)"
  using Min.set_eq_fold [of "hd xs" "tl xs"] by (cases xs) simp_all

lemma Math_max_eq: "xs \<noteq> [] \<Longrightarrow> Math_max xs = Max (set xs)"
  using Max.set_eq_fold [of "hd xs" "tl xs"] by (cases xs) simp_all

text \<open>
  The entry at index 1 of the sorted depths is the least depth that remains once one
  occurrence of the least depth has been taken away.
\<close>

lemma sorted_second:
  fixes ds :: "nat list"
  assumes "2 \<le> length ds"
  shows "sort ds ! 1 = Min (set (remove1 (Min (set ds)) ds))"
proof -
  from assms obtain a b rest where s: "sort ds = a # b # rest"
    by (metis One_nat_def Suc_1 Suc_le_length_iff length_sort)
  have srt: "sorted (a # b # rest)" using s by (metis sorted_sort)
  have "set ds = set (a # b # rest)" using s by (metis set_sort)
  moreover have "\<forall>x \<in> set (a # b # rest). a \<le> x" using srt by auto
  ultimately have a: "Min (set ds) = a"
    by (intro Min_eqI) auto
  have "mset (remove1 a ds) = mset ds - {#a#}" by simp
  also have "mset ds = mset (a # b # rest)" using s by (metis mset_sort)
  finally have "mset (remove1 a ds) = mset (b # rest)" by simp
  then have "set (remove1 a ds) = set (b # rest)" by (metis set_mset_mset)
  moreover have "\<forall>x \<in> set (b # rest). b \<le> x" using srt by auto
  ultimately have "Min (set (remove1 a ds)) = b"
    by (intro Min_eqI) auto
  with a s show ?thesis by simp
qed

lemma sort_single: "length (ds :: nat list) = 1 \<Longrightarrow> sort ds ! 0 = hd ds"
  by (cases ds) simp_all

text \<open>
  Claim C2. A course node yields 1 plus the depth the table holds for the course (0 when
  it holds none). For a group, let \<open>ds\<close> be the children's depths without the zeros: the
  group yields 0 when \<open>ds\<close> is empty, else the minimum of \<open>ds\<close> for \<^verbatim>\<open>ONE_OF\<close>, the maximum
  for \<^verbatim>\<open>ALL_OF\<close>, and for \<^verbatim>\<open>TWO_OF\<close> the single candidate when there is one and otherwise
  the second smallest (the least depth left after removing one occurrence of the
  minimum). With Y at depth 1 and Z at depth 2, \<^verbatim>\<open>ALL_OF[Y, Z]\<close> yields 3,
  \<^verbatim>\<open>ONE_OF[Y, Z]\<close> yields 2 and \<^verbatim>\<open>TWO_OF[Y, Z]\<close> yields 3.
\<close>

theorem depth_combinator:
  "calculatePrerequisiteDepth (RequirementCourse c mg cc mc) tbl
     = 1 + (case tbl c of None \<Rightarrow> 0 | Some d \<Rightarrow> d) \<and>
   (let ds = filter (\<lambda>d. 0 < d) (map (\<lambda>ch. calculatePrerequisiteDepth ch tbl) cs)
    in calculatePrerequisiteDepth (RequirementGroup logic cs) tbl =
         (if ds = [] then 0
          else case logic of
                 ONE_OF \<Rightarrow> Min (set ds)
               | ALL_OF \<Rightarrow> Max (set ds)
               | TWO_OF \<Rightarrow>
                   (if length ds = 1 then hd ds
                    else Min (set (remove1 (Min (set ds)) ds))))) \<and>
   calculatePrerequisiteDepth
     (RequirementGroup ALL_OF
        [RequirementCourse ''Y'' None None None, RequirementCourse ''Z'' None None None])
     [''Y'' \<mapsto> 1, ''Z'' \<mapsto> 2] = 3 \<and>
   calculatePrerequisiteDepth
     (RequirementGroup ONE_OF
        [RequirementCourse ''Y'' None None None, RequirementCourse ''Z'' None None None])
     [''Y'' \<mapsto> 1, ''Z'' \<mapsto> 2] = 2 \<and>
   calculatePrerequisiteDepth
     (RequirementGroup TWO_OF
        [RequirementCourse ''Y'' None None None, RequirementCourse ''Z'' None None None])
     [''Y'' \<mapsto> 1, ''Z'' \<mapsto> 2] = 3"
proof -
  have course: "calculatePrerequisiteDepth (RequirementCourse c mg cc mc) tbl
     = 1 + (case tbl c of None \<Rightarrow> 0 | Some d \<Rightarrow> d)"
    by (simp add: getOr0_def)
  define ds where
    "ds = filter (\<lambda>d. 0 < d) (map (\<lambda>ch. calculatePrerequisiteDepth ch tbl) cs)"
  have grp: "calculatePrerequisiteDepth (RequirementGroup logic cs) tbl =
         (if ds = [] then 0
          else case logic of
                 ONE_OF \<Rightarrow> Min (set ds)
               | ALL_OF \<Rightarrow> Max (set ds)
               | TWO_OF \<Rightarrow>
                   (if length ds = 1 then hd ds
                    else Min (set (remove1 (Min (set ds)) ds))))"
  proof -
    have unf: "calculatePrerequisiteDepth (RequirementGroup logic cs) tbl =
        (if ds = [] then 0
         else if logic = ONE_OF then Math_min ds
         else if logic = TWO_OF then (if 2 \<le> length ds then sort ds ! 1 else sort ds ! 0)
         else Math_max ds)"
      unfolding ds_def by (simp add: Let_def)
    show ?thesis
    proof (cases "ds = []")
      case True
      then show ?thesis unfolding unf by simp
    next
      case False
      then have len: "length ds = 1 \<or> 2 \<le> length ds"
        by (cases ds) (auto simp: not_le Suc_le_eq)
      show ?thesis
      proof (cases logic)
        case ALL_OF
        then show ?thesis unfolding unf using False by (simp add: Math_max_eq)
      next
        case ONE_OF
        then show ?thesis unfolding unf using False by (simp add: Math_min_eq)
      next
        case TWO_OF
        then show ?thesis
          unfolding unf using False len sorted_second [of ds] sort_single [of ds]
          by auto
      qed
    qed
  qed
  have ex: "calculatePrerequisiteDepth
     (RequirementGroup ALL_OF
        [RequirementCourse ''Y'' None None None, RequirementCourse ''Z'' None None None])
     [''Y'' \<mapsto> 1, ''Z'' \<mapsto> 2] = 3"
   "calculatePrerequisiteDepth
     (RequirementGroup ONE_OF
        [RequirementCourse ''Y'' None None None, RequirementCourse ''Z'' None None None])
     [''Y'' \<mapsto> 1, ''Z'' \<mapsto> 2] = 2"
   "calculatePrerequisiteDepth
     (RequirementGroup TWO_OF
        [RequirementCourse ''Y'' None None None, RequirementCourse ''Z'' None None None])
     [''Y'' \<mapsto> 1, ''Z'' \<mapsto> 2] = 3"
    by (simp_all add: getOr0_def)
  show ?thesis using course grp ex unfolding ds_def Let_def by blast
qed

theorem depth_combinator_witness:
  "calculatePrerequisiteDepth
     (RequirementGroup TWO_OF
        [courseLeaf ''U'', RequirementStanding S2nd, courseLeaf ''V'', courseLeaf ''W''])
     [''U'' \<mapsto> 4, ''V'' \<mapsto> 1, ''W'' \<mapsto> 2] = 3 \<and>
   calculatePrerequisiteDepth
     (RequirementGroup TWO_OF [RequirementStanding S2nd, courseLeaf ''U''])
     [''U'' \<mapsto> 4] = 5 \<and>
   calculatePrerequisiteDepth
     (RequirementGroup ALL_OF [RequirementStanding S2nd]) [''U'' \<mapsto> 4] = 0"
  using depth_combinator [of "''U''" None None None "[''U'' \<mapsto> 4, ''V'' \<mapsto> 1, ''W'' \<mapsto> 2]"
      "[courseLeaf ''U'', RequirementStanding S2nd, courseLeaf ''V'', courseLeaf ''W'']" TWO_OF]
    depth_combinator [of "''U''" None None None "[''U'' \<mapsto> 4]"
      "[RequirementStanding S2nd, courseLeaf ''U'']" TWO_OF]
    depth_combinator [of "''U''" None None None "[''U'' \<mapsto> 4]"
      "[RequirementStanding S2nd]" ALL_OF]
  by (simp add: courseLeaf_def getOr0_def)

section \<open>Properties of depth resolution\<close>











section \<open>Properties of graph assembly\<close>

lemma set_update_subset: "set (AList.update k v al) \<subseteq> insert (k, v) (set al)"
  by (induction al) auto


lemma set_registerLink:
  "set (registerLink lm s t v) \<subseteq>
     insert (linkKeyOf s t, \<lparr>source = s, target = t, value = v\<rparr>) (set lm)"
  using set_update_subset [of "linkKeyOf s t" _ lm]
  by (auto simp: registerLink_def Let_def split: option.splits)

lemma fold_invariant:
  assumes "I s" and "\<And>x s. x \<in> set xs \<Longrightarrow> I s \<Longrightarrow> I (f x s)"
  shows "I (fold f xs s)"
  using assms by (induction xs arbitrary: s) auto


lemma prereqStep_links:
  "snd (prereqStep t tbl cv st) = registerLink (snd st) (fst cv) t (roundedValueOf (snd cv))"
  by (cases cv; cases st) (simp add: Let_def)

lemma coreqStep_links:
  "snd (coreqStep t tbl cv st) =
     registerLink (registerLink (snd st) (fst cv) t (roundedValueOf (snd cv)))
       t (fst cv) (roundedValueOf (snd cv))"
  by (cases cv; cases st) (simp add: Let_def)

lemma courseStep_invariant:
  assumes inv: "P (snd st)"
    and reg: "\<And>lm s t v. P lm \<Longrightarrow> R s t v \<Longrightarrow> P (registerLink lm s t v)"
    and pre: "\<And>p cid w. prerequisites req = Some p \<Longrightarrow>
        (cid, w) \<in> set (extractCourseRequirementsWithValues p 1) \<Longrightarrow>
        R cid (course c) (roundedValueOf w)"
    and co: "\<And>q cid w. corequisites req = Some q \<Longrightarrow>
        (cid, w) \<in> set (extractCourseRequirementsWithValues q 1) \<Longrightarrow>
        R cid (course c) (roundedValueOf w) \<and> R (course c) cid (roundedValueOf w)"
  shows "P (snd (courseStep tbl (c, req) st))"
proof -
  obtain nm lm where st: "st = (nm, lm)" by (cases st)
  define st0 where
    "st0 = (addNode nm (course c) (department req) (getOr0 tbl (course c)), lm)"
  define st1 where
    "st1 = (case prerequisites req of
              Some p \<Rightarrow> fold (prereqStep (course c) tbl)
                         (extractCourseRequirementsWithValues p 1) st0
            | None \<Rightarrow> st0)"
  have unf: "courseStep tbl (c, req) st =
      (case corequisites req of
         Some q \<Rightarrow> fold (coreqStep (course c) tbl)
                    (extractCourseRequirementsWithValues q 1) st1
       | None \<Rightarrow> st1)"
    unfolding st st0_def st1_def by (simp add: Let_def)
  have p0: "P (snd st0)" using inv by (simp add: st st0_def)
  have p1: "P (snd st1)"
  proof (cases "prerequisites req")
    case None
    then show ?thesis using p0 by (simp add: st1_def)
  next
    case (Some p)
    have "P (snd (fold (prereqStep (course c) tbl)
                 (extractCourseRequirementsWithValues p 1) st0))"
    proof (rule fold_invariant [where I = "\<lambda>s :: Node jsMap \<times> Link jsMap. P (snd s)"])
      show "P (snd st0)" by (rule p0)
    next
      fix x and s :: "Node jsMap \<times> Link jsMap"
      assume "x \<in> set (extractCourseRequirementsWithValues p 1)" and "P (snd s)"
      then show "P (snd (prereqStep (course c) tbl x s))"
        using pre [OF Some, of "fst x" "snd x"] reg by (simp add: prereqStep_links)
    qed
    then show ?thesis by (simp add: st1_def Some)
  qed
  show ?thesis
  proof (cases "corequisites req")
    case None
    then show ?thesis using p1 by (simp add: unf)
  next
    case (Some q)
    have "P (snd (fold (coreqStep (course c) tbl)
                 (extractCourseRequirementsWithValues q 1) st1))"
    proof (rule fold_invariant [where I = "\<lambda>s :: Node jsMap \<times> Link jsMap. P (snd s)"])
      show "P (snd st1)" by (rule p1)
    next
      fix x and s :: "Node jsMap \<times> Link jsMap"
      assume "x \<in> set (extractCourseRequirementsWithValues q 1)" and "P (snd s)"
      then show "P (snd (coreqStep (course c) tbl x s))"
        using co [OF Some, of "fst x" "snd x"] reg by (simp add: coreqStep_links)
    qed
    then show ?thesis by (simp add: unf Some)
  qed
qed

lemma links_generate:
  "links (generateNodesAndLinks courses) =
     map snd (snd (fold (courseStep (resolveDepths (parsedCoursesOf courses)))
        (parsedCoursesOf courses) ([], [])))"
  by (simp add: generateNodesAndLinks_def Let_def split: prod.splits)











lemma registeredBy_prereq:
  "prerequisites req = Some p \<Longrightarrow> (cid, w) \<in> set (extractCourseRequirementsWithValues p 1) \<Longrightarrow>
   registeredBy (c, req) \<lparr>source = cid, target = course c, value = roundedValueOf w\<rparr>"
  by (auto simp: registeredBy_def list_ex_iff)

lemma registeredBy_coreq:
  "corequisites req = Some q \<Longrightarrow> (cid, w) \<in> set (extractCourseRequirementsWithValues q 1) \<Longrightarrow>
   registeredBy (c, req) \<lparr>source = cid, target = course c, value = roundedValueOf w\<rparr> \<and>
   registeredBy (c, req) \<lparr>source = course c, target = cid, value = roundedValueOf w\<rparr>"
  by (auto simp: registeredBy_def list_ex_iff)

lemma all_links_registered:
  "\<forall>l \<in> set (links (generateNodesAndLinks courses)).
     \<exists>cr \<in> set (parsedCoursesOf courses). registeredBy cr l"
proof -
  define pcs where "pcs = parsedCoursesOf courses"
  define P where "P = (\<lambda>lm :: Link jsMap. \<forall>kl \<in> set lm. \<exists>cr \<in> set pcs. registeredBy cr (snd kl))"
  define R where "R = (\<lambda>s t v. \<exists>cr \<in> set pcs. registeredBy cr \<lparr>source = s, target = t, value = v\<rparr>)"
  have reg: "P (registerLink lm s t v)" if "P lm" "R s t v" for lm s t v
    using that set_registerLink [of lm s t v] unfolding P_def R_def by fastforce
  have "P (snd (fold (courseStep (resolveDepths pcs)) pcs ([], [])))"
  proof (rule fold_invariant [where I = "\<lambda>s :: Node jsMap \<times> Link jsMap. P (snd s)"])
    show "P (snd ([], []))" by (simp add: P_def)
  next
    fix x and s :: "Node jsMap \<times> Link jsMap"
    assume x: "x \<in> set pcs" and s: "P (snd s)"
    obtain c req where cr: "x = (c, req)" by (cases x)
    show "P (snd (courseStep (resolveDepths pcs) x s))"
      unfolding cr
    proof (rule courseStep_invariant [where R = R, OF s reg])
      fix p cid w
      assume "prerequisites req = Some p" "(cid, w) \<in> set (extractCourseRequirementsWithValues p 1)"
      then show "R cid (course c) (roundedValueOf w)"
        unfolding R_def using x cr registeredBy_prereq by blast
    next
      fix q cid w
      assume "corequisites req = Some q" "(cid, w) \<in> set (extractCourseRequirementsWithValues q 1)"
      then show "R cid (course c) (roundedValueOf w) \<and> R (course c) cid (roundedValueOf w)"
        unfolding R_def using x cr registeredBy_coreq by blast
    qed
  qed
  then show ?thesis
    unfolding links_generate pcs_def [symmetric] P_def by auto
qed

text \<open>
  Claim C5, as stated, fails: the source stores \<^verbatim>\<open>Math.round(value * 100) / 100\<close>. A course
  X with the prerequisite \<^verbatim>\<open>ONE_OF[A, B, C]\<close> gets three links of value 0.33, while the
  extractor's weights are 1/3.
\<close>

theorem edge_value_unrounded_counterexample:
  "links (generateNodesAndLinks
     [parsedFile ''X''
        (Some (RequirementGroup ONE_OF [courseLeaf ''A'', courseLeaf ''B'', courseLeaf ''C'']))
        None])
     = [\<lparr>source = ''A'', target = ''X'', value = 33 / 100\<rparr>,
        \<lparr>source = ''B'', target = ''X'', value = 33 / 100\<rparr>,
        \<lparr>source = ''C'', target = ''X'', value = 33 / 100\<rparr>] \<and>
   extractCourseRequirementsWithValues
     (RequirementGroup ONE_OF [courseLeaf ''A'', courseLeaf ''B'', courseLeaf ''C'']) 1
     = [(''A'', 1 / 3), (''B'', 1 / 3), (''C'', 1 / 3)] \<and>
   (33 / 100 :: real) \<noteq> 1 / 3"
  by (simp add: generateNodesAndLinks_def parsedFile_def courseLeaf_def Let_def
      registerLink_def linkKeyOf_def roundedValueOf_def round_def)

text \<open>
  Claim C5, amended. Every link of the assembled graph was registered by a parsed course:
  it joins a course leaf of that course's prerequisite or corequisite tree with the course
  (for a corequisite in either direction), and its value is the extractor's weight of that
  leaf rounded to two decimals, \<^verbatim>\<open>Math.round(w * 100) / 100\<close>.
\<close>

theorem edge_value_is_rounded_weight:
  "\<forall>l \<in> set (links (generateNodesAndLinks courses)).
     \<exists>cr \<in> set (parsedCoursesOf courses). registeredBy cr l"
  by (rule all_links_registered)

theorem edge_value_is_rounded_weight_witness:
  "\<lparr>source = ''A'', target = ''X'', value = 33 / 100\<rparr> \<in>
     set (links (generateNodesAndLinks
       [parsedFile ''X''
          (Some (RequirementGroup ONE_OF [courseLeaf ''A'', courseLeaf ''B'', courseLeaf ''C'']))
          None])) \<and>
   (\<exists>cr \<in> set (parsedCoursesOf
       [parsedFile ''X''
          (Some (RequirementGroup ONE_OF [courseLeaf ''A'', courseLeaf ''B'', courseLeaf ''C'']))
          None]).
      registeredBy cr \<lparr>source = ''A'', target = ''X'', value = 33 / 100\<rparr>)"
proof -
  have m: "\<lparr>source = ''A'', target = ''X'', value = 33 / 100\<rparr> \<in>
     set (links (generateNodesAndLinks
       [parsedFile ''X''
          (Some (RequirementGroup ONE_OF [courseLeaf ''A'', courseLeaf ''B'', courseLeaf ''C'']))
          None]))"
    by (simp add: generateNodesAndLinks_def parsedFile_def courseLeaf_def Let_def
        registerLink_def linkKeyOf_def roundedValueOf_def round_def)
  show ?thesis
    using m edge_value_is_rounded_weight
      [of "[parsedFile ''X''
          (Some (RequirementGroup ONE_OF [courseLeaf ''A'', courseLeaf ''B'', courseLeaf ''C'']))
          None]"]
    by blast
qed



















text \<open>
  The side condition on identifiers is needed: the key is the string
  \<^verbatim>\<open>`${source}->${target}`\<close>, so with a course leaf \<^verbatim>\<open>A->B\<close> of a course \<^verbatim>\<open>C\<close> and a course
  leaf \<^verbatim>\<open>A\<close> of a course \<^verbatim>\<open>B->C\<close> two corequisite registrations share the key
  \<^verbatim>\<open>A->B->C\<close> and not the opposite one. No prerequisite is involved, and the two keys of
  the first pair end with the values 1 and 0.5.
\<close>

lemma corequisite_key_collision_example:
  "links (generateNodesAndLinks
     [parsedFile ''C'' None
        (Some (RequirementGroup ONE_OF [courseLeaf ''A->B'', courseLeaf ''X''])),
      parsedFile ''B->C'' None (Some (courseLeaf ''A''))])
     = [\<lparr>source = ''A'', target = ''B->C'', value = 1\<rparr>,
        \<lparr>source = ''C'', target = ''A->B'', value = 1 / 2\<rparr>,
        \<lparr>source = ''X'', target = ''C'', value = 1 / 2\<rparr>,
        \<lparr>source = ''C'', target = ''X'', value = 1 / 2\<rparr>,
        \<lparr>source = ''B->C'', target = ''A'', value = 1\<rparr>] \<and>
   linkKeyOf ''A'' ''B->C'' = linkKeyOf ''A->B'' ''C'' \<and>
   linkKeyOf ''C'' ''A->B'' \<noteq> linkKeyOf ''B->C'' ''A''"
  by (simp add: generateNodesAndLinks_def parsedFile_def courseLeaf_def Let_def
      registerLink_def linkKeyOf_def roundedValueOf_def round_def)



section \<open>Properties of the schema validator\<close>

lemma getProp_objectLike: "objectLike x \<Longrightarrow> \<exists>y. getProp x k = Inr y"
  by (cases x) (auto simp: objectLike_def split: option.splits)

lemma wf_valid: "wellFormedResult valid"
  by (simp add: wellFormedResult_def)

lemma wf_invalid: "wellFormedResult (invalid m)"
  by (simp add: wellFormedResult_def invalid_def)

lemma course_ok:
  "objectLike req \<Longrightarrow> \<exists>r. validateRequirementCourse v req = Inr r \<and> wellFormedResult r"
  using getProp_objectLike [of req "''course''"] getProp_objectLike [of req "''minGrade''"]
    getProp_objectLike [of req "''canBeTakenConcurrently''"]
    getProp_objectLike [of req "''mustBeTakenConcurrently''"]
  by (auto simp: validateRequirementCourse_def bindE_def wf_valid wf_invalid)

lemma checkDepartment_wf: "checkDepartment d = Some r \<Longrightarrow> wellFormedResult r"
  by (auto simp: checkDepartment_def wf_invalid split: if_splits jsValue.splits)

lemma checkLevel_wf: "checkLevel v l = Some r \<Longrightarrow> wellFormedResult r"
  by (auto simp: checkLevel_def wf_invalid split: if_splits jsValue.splits)

lemma countOptions_ok:
  "objectLike req \<Longrightarrow> \<exists>r. validateCountOptions v req = Inr r \<and> wellFormedResult r"
  using getProp_objectLike [of req "''department''"] getProp_objectLike [of req "''level''"]
    getProp_objectLike [of req "''minGrade''"]
  by (auto simp: validateCountOptions_def bindE_def wf_valid wf_invalid
      checkDepartment_wf checkLevel_wf split: option.splits)

lemma creditCount_ok:
  "objectLike req \<Longrightarrow> \<exists>r. validateRequirementCreditCount v req = Inr r \<and> wellFormedResult r"
  using getProp_objectLike [of req "''credits''"] countOptions_ok [of req v]
  by (auto simp: validateRequirementCreditCount_def bindE_def wf_invalid)

lemma courseCount_ok:
  "objectLike req \<Longrightarrow> \<exists>r. validateRequirementCourseCount v req = Inr r \<and> wellFormedResult r"
  using getProp_objectLike [of req "''count''"] countOptions_ok [of req v]
  by (auto simp: validateRequirementCourseCount_def bindE_def wf_invalid)

lemma standing_ok:
  "objectLike req \<Longrightarrow> \<exists>r. validateRequirementStanding v req = Inr r \<and> wellFormedResult r"
  using getProp_objectLike [of req "''standing''"]
  by (auto simp: validateRequirementStanding_def bindE_def wf_valid wf_invalid)

lemma program_ok:
  "objectLike req \<Longrightarrow> \<exists>r. validateRequirementProgram v req = Inr r \<and> wellFormedResult r"
  using getProp_objectLike [of req "''program''"]
  by (auto simp: validateRequirementProgram_def bindE_def wf_valid wf_invalid)

lemma permission_ok:
  "objectLike req \<Longrightarrow> \<exists>r. validateRequirementPermission v req = Inr r \<and> wellFormedResult r"
  using getProp_objectLike [of req "''note''"]
  by (auto simp: validateRequirementPermission_def bindE_def wf_valid wf_invalid)

lemma other_ok:
  "objectLike req \<Longrightarrow> \<exists>r. validateRequirementOther v req = Inr r \<and> wellFormedResult r"
  using getProp_objectLike [of req "''note''"]
  by (auto simp: validateRequirementOther_def bindE_def wf_valid wf_invalid)

lemma validate_never_throws:
  "(\<exists>r. validateRequirements v req = Inr r \<and> wellFormedResult r)"
  "(objectLike req' \<longrightarrow> (\<exists>r. validateRequirementGroup v' req' = Inr r \<and> wellFormedResult r))"
  "(\<exists>ro. validateChildren v'' cs i = Inr ro \<and> (\<forall>r. ro = Some r \<longrightarrow> wellFormedResult r))"
proof (induction v req and v' req' and v'' cs i
    rule: validateRequirements_validateRequirementGroup_validateChildren.induct)
  case (1 v req)
  show ?case
  proof (cases "objectLike req")
    case False
    then show ?thesis
      by (auto simp: validateRequirements.simps [of v req] objectLike_def wf_invalid)
  next
    case True
    then obtain ty where ty: "getProp req ''type'' = Inr ty"
      using getProp_objectLike by blast
    have ol: "\<not> (\<not> truthy req \<or> typeof req \<noteq> ''object'')" using True by (simp add: objectLike_def)
    show ?thesis
    proof (cases ty)
      case (JStr t)
      show ?thesis
      proof (cases "t = ''group''")
        case g: True
        have "t \<noteq> []" using g by simp
        from "1.IH" [OF ol ty JStr this g] True
        show ?thesis
          using ty JStr g by (auto simp add: validateRequirements.simps [of v req] objectLike_def)
      next
        case False
        then show ?thesis
          using ty JStr True ol course_ok [OF True, of v] creditCount_ok [OF True, of v]
            courseCount_ok [OF True, of v] standing_ok [OF True, of v] program_ok [OF True, of v]
            permission_ok [OF True, of v] other_ok [OF True, of v]
          by (auto simp add: validateRequirements.simps [of v req] wf_invalid objectLike_def)
      qed
    qed (use ty ol in \<open>auto simp add: validateRequirements.simps [of v req] wf_invalid\<close>)
  qed
next
  case (2 v req)
  show ?case
  proof
    assume ol: "objectLike req"
    obtain logic where lg: "getProp req ''logic'' = Inr logic"
      using getProp_objectLike [OF ol] by blast
    obtain ch where ch: "getProp req ''children'' = Inr ch"
      using getProp_objectLike [OF ol] by blast
    obtain rc where rc: "getProp req ''recommended'' = Inr rc"
      using getProp_objectLike [OF ol] by blast
    show "\<exists>r. validateRequirementGroup v req = Inr r \<and> wellFormedResult r"
    proof (cases "\<not> truthy logic \<or> \<not> includesStr [''ALL_OF'', ''ONE_OF'', ''TWO_OF''] logic")
      case True
      then show ?thesis
        using lg by (auto simp add: validateRequirementGroup.simps [of v req] wf_invalid)
    next
      case lok: False
      show ?thesis
      proof (cases ch)
        case (JArr children)
        show ?thesis
        proof (cases "length children = 0")
          case True
          then show ?thesis
            using lg lok ch JArr
            by (auto simp add: validateRequirementGroup.simps [of v req] wf_invalid)
        next
          case False
          from "2.IH" [OF lg lok ch JArr False]
          obtain ro where ro: "validateChildren v children 0 = Inr ro"
            "\<forall>r. ro = Some r \<longrightarrow> wellFormedResult r" by blast
          show ?thesis
            using lg lok ch JArr False ro rc
            by (cases ro)
              (auto simp add: validateRequirementGroup.simps [of v req] wf_invalid wf_valid)
        qed
      qed (use lg lok ch in
          \<open>auto simp add: validateRequirementGroup.simps [of v req] wf_invalid\<close>)
    qed
  qed
next
  case (3 v children i)
  show ?case
  proof (cases "i < length children")
    case False
    then show ?thesis by (simp add: validateChildren.simps [of v children i])
  next
    case True
    from "3.IH"(1) [OF True] obtain r where
      r: "validateRequirements v (children ! i) = Inr r" "wellFormedResult r" by blast
    show ?thesis
    proof (cases "isValid r")
      case False
      then show ?thesis
        using True r by (simp add: validateChildren.simps [of v children i] wf_invalid)
    next
      case v: True
      from "3.IH"(2) [OF True r(1)] v
      show ?thesis
        using True r by (simp add: validateChildren.simps [of v children i])
    qed
  qed
qed

lemma validateField_ok:
  assumes "objectLike data"
  shows "\<exists>ro. validateField v data name label = Inr ro \<and>
           (\<forall>r. ro = Some r \<longrightarrow> wellFormedResult r)"
proof -
  obtain field where f: "getProp data name = Inr field"
    using getProp_objectLike [OF assms] by blast
  obtain r where r: "validateRequirements v field = Inr r"
    using validate_never_throws(1) by blast
  show ?thesis
    using f r by (simp add: validateField_def bindE_def wf_invalid)
qed

lemma unlessReturned_ok:
  assumes "\<exists>ro. m = Inr ro \<and> (\<forall>r. ro = Some r \<longrightarrow> wellFormedResult r)"
    and "\<exists>r. rest = Inr r \<and> wellFormedResult r"
  shows "\<exists>r. unlessReturned m rest = Inr r \<and> wellFormedResult r"
  using assms by (auto simp: unlessReturned_def split: option.splits)

lemma try_ok:
  "\<exists>r. validateParsedRequirementsTry v data = Inr r \<and> wellFormedResult r"
proof (cases "objectLike data")
  case False
  then show ?thesis
    by (auto simp: validateParsedRequirementsTry_def objectLike_def wf_invalid)
next
  case True
  obtain dep where dep: "getProp data ''department'' = Inr dep"
    using getProp_objectLike [OF True] by blast
  obtain cd where cd: "getProp data ''code'' = Inr cd"
    using getProp_objectLike [OF True] by blast
  have chain: "\<exists>r. unlessReturned (validateField v data ''prerequisites'' ''prerequisites'')
           (unlessReturned (validateField v data ''corequisites'' ''corequisites'')
           (unlessReturned
              (validateField v data ''recommendedPrerequisites'' ''recommended prerequisites'')
           (unlessReturned
              (validateField v data ''recommendedCorequisites'' ''recommended corequisites'')
           (Inr valid)))) = Inr r \<and> wellFormedResult r"
    by (intro unlessReturned_ok validateField_ok True) (simp add: wf_valid)
  show ?thesis
    using True dep cd chain
    by (auto simp: validateParsedRequirementsTry_def objectLike_def bindE_def wf_invalid)
qed

lemma validateChildren_fail_fast:
  assumes i: "i < length cs"
    and ok: "\<forall>j<i. \<exists>r'. validateRequirements v (cs ! j) = Inr r' \<and> isValid r'"
    and bad: "validateRequirements v (cs ! i) = Inr r" "\<not> isValid r"
  shows "k \<le> i \<Longrightarrow>
    validateChildren v cs k =
      Inr (Some (invalid (''Invalid child at index '' @ showNat i @ '': '' @ errorText r)))"
proof (induction "i - k" arbitrary: k)
  case 0
  then have "k = i" by simp
  then show ?case using i bad by (simp add: validateChildren.simps [of v cs i])
next
  case (Suc d)
  then have lt: "k < i" and d: "d = i - (k + 1)" and le: "k + 1 \<le> i" by simp_all
  from ok lt obtain r' where r': "validateRequirements v (cs ! k) = Inr r'" "isValid r'"
    by blast
  have "validateChildren v cs k = validateChildren v cs (k + 1)"
    using lt i r' by (simp add: validateChildren.simps [of v cs k])
  then show ?case using Suc.hyps(1) [OF d le] by simp
qed


lemmas validator_unfold =
  validateParsedRequirements_def validateParsedRequirementsTry_def validateField_def
  unlessReturned_def bindE_def validateRequirements.simps validateRequirementGroup.simps
  validateChildren.simps validateRequirementCourse_def invalid_def valid_def errorText_def
  includesStr_def badMinGrade_def showNat.simps

text \<open>
  Claim C10. For every input value (\<^verbatim>\<open>undefined\<close>, \<^verbatim>\<open>null\<close>, a boolean, number or
  string, an array, an object with any fields), in either copy of the validator: the
  body of the \<^verbatim>\<open>try\<close> block completes without an exception and its result is the result
  of \<^verbatim>\<open>validateParsedRequirements\<close>; \<^verbatim>\<open>validateRequirements\<close> completes without an
  exception on every value; and the result either has \<^verbatim>\<open>isValid\<close> true and no error, or
  \<^verbatim>\<open>isValid\<close> false and an error message. So \<^verbatim>\<open>null\<close>, \<^verbatim>\<open>undefined\<close> and a string are
  rejected as not being an object, an object without \<^verbatim>\<open>code\<close> for its missing field, an
  unknown discriminant by name, and a wrongly typed \<^verbatim>\<open>children\<close> with its reason.
  The model has no bound on the nesting of the input: exhaustion of the call stack is
  outside it (the \<^verbatim>\<open>catch\<close> of the source would turn that into a result, too).
\<close>

theorem validateParsedRequirements_total:
  "(\<exists>r. validateParsedRequirementsTry v data = Inr r \<and> validateParsedRequirements v data = r) \<and>
   (\<exists>r. validateRequirements v req = Inr r) \<and>
   ((isValid (validateParsedRequirements v data) \<and>
       error (validateParsedRequirements v data) = None) \<or>
    (\<not> isValid (validateParsedRequirements v data) \<and>
       (\<exists>msg. error (validateParsedRequirements v data) = Some msg))) \<and>
   validateParsedRequirements v JNull = invalid ''Data must be an object'' \<and>
   validateParsedRequirements v JUndefined = invalid ''Data must be an object'' \<and>
   validateParsedRequirements v (JStr ''CPSC 110'') = invalid ''Data must be an object'' \<and>
   validateParsedRequirements v (JObj [(''department'', JStr ''CPSC'')])
     = invalid ''Missing or invalid code field'' \<and>
   validateParsedRequirements v
     (JObj [(''department'', JStr ''CPSC''), (''code'', JStr ''110''),
            (''prerequisites'', JObj [(''type'', JStr ''quest'')])])
     = invalid ''Invalid prerequisites: Unknown requirement type: quest'' \<and>
   validateParsedRequirements v
     (JObj [(''department'', JStr ''CPSC''), (''code'', JStr ''110''),
            (''corequisites'',
               JObj [(''type'', JStr ''group''), (''logic'', JStr ''ALL_OF''),
                     (''children'', JNum 3)])])
     = invalid ''Invalid corequisites: Group must have children array''"
proof -
  obtain r where r: "validateParsedRequirementsTry v data = Inr r" "wellFormedResult r"
    using try_ok by blast
  then have res: "validateParsedRequirements v data = r"
    by (simp add: validateParsedRequirements_def)
  have a: "\<exists>r. validateParsedRequirementsTry v data = Inr r \<and> validateParsedRequirements v data = r"
    using r res by simp
  have b: "\<exists>r. validateRequirements v req = Inr r"
    using validate_never_throws(1) by blast
  have c: "(isValid (validateParsedRequirements v data) \<and>
       error (validateParsedRequirements v data) = None) \<or>
    (\<not> isValid (validateParsedRequirements v data) \<and>
       (\<exists>msg. error (validateParsedRequirements v data) = Some msg))"
    using r(2) unfolding res by (auto simp: wellFormedResult_def valid_def)
  have d: "validateParsedRequirements v JNull = invalid ''Data must be an object''"
    "validateParsedRequirements v JUndefined = invalid ''Data must be an object''"
    "validateParsedRequirements v (JStr ''CPSC 110'') = invalid ''Data must be an object''"
    "validateParsedRequirements v (JObj [(''department'', JStr ''CPSC'')])
     = invalid ''Missing or invalid code field''"
    by (simp_all add: validator_unfold)
  have e: "validateParsedRequirements v
     (JObj [(''department'', JStr ''CPSC''), (''code'', JStr ''110''),
            (''prerequisites'', JObj [(''type'', JStr ''quest'')])])
     = invalid ''Invalid prerequisites: Unknown requirement type: quest''"
    by (simp add: validator_unfold)
  have f: "validateParsedRequirements v
     (JObj [(''department'', JStr ''CPSC''), (''code'', JStr ''110''),
            (''corequisites'',
               JObj [(''type'', JStr ''group''), (''logic'', JStr ''ALL_OF''),
                     (''children'', JNum 3)])])
     = invalid ''Invalid corequisites: Group must have children array''"
    by (simp add: validator_unfold)
  show ?thesis using a b c d e f by blast
qed

theorem validateParsedRequirements_total_witness:
  "isValid (validateParsedRequirements UtilitiesTs
     (JObj [(''department'', JStr ''CPSC''), (''code'', JStr ''210''),
            (''prerequisites'',
               JObj [(''type'', JStr ''course''), (''course'', JStr ''CPSC 110'')])])) \<and>
   error (validateParsedRequirements UtilitiesTs
     (JObj [(''department'', JStr ''CPSC''), (''code'', JStr ''210''),
            (''prerequisites'',
               JObj [(''type'', JStr ''course''), (''course'', JStr ''CPSC 110'')])])) = None \<and>
   \<not> isValid (validateParsedRequirements UtilitiesTs (JArr [JNull])) \<and>
   error (validateParsedRequirements UtilitiesTs (JArr [JNull]))
     = Some ''Missing or invalid department field''"
proof -
  have a: "isValid (validateParsedRequirements UtilitiesTs
     (JObj [(''department'', JStr ''CPSC''), (''code'', JStr ''210''),
            (''prerequisites'',
               JObj [(''type'', JStr ''course''), (''course'', JStr ''CPSC 110'')])]))"
    by (simp add: validator_unfold)
  have b: "error (validateParsedRequirements UtilitiesTs (JArr [JNull]))
     = Some ''Missing or invalid department field''"
    by (simp add: validator_unfold showNat.simps)
  show ?thesis
    using a b
      validateParsedRequirements_total [of UtilitiesTs
        "JObj [(''department'', JStr ''CPSC''), (''code'', JStr ''210''),
            (''prerequisites'',
               JObj [(''type'', JStr ''course''), (''course'', JStr ''CPSC 110'')])]" JNull]
      validateParsedRequirements_total [of UtilitiesTs "JArr [JNull]" JNull]
    by auto
qed


text \<open>
  Claim C8. A \<^verbatim>\<open>course\<close> requirement with a non-empty \<^verbatim>\<open>course\<close> string, whose two
  concurrency flags are absent or booleans, is rejected with the \<^verbatim>\<open>minGrade\<close> reason when
  its \<^verbatim>\<open>minGrade\<close> is -1, 101 or any string, and accepted when it is 0 or 100; in general
  it is accepted exactly when \<^verbatim>\<open>minGrade\<close> is \<^verbatim>\<open>undefined\<close> or a number from 0 to 100.
\<close>

theorem course_minGrade_range:
  assumes "map_of kvs ''type'' = Some (JStr ''course'')"
    and "map_of kvs ''course'' = Some (JStr c)" and "c \<noteq> []"
    and "\<forall>x. map_of kvs ''canBeTakenConcurrently'' = Some x \<longrightarrow> x = JUndefined \<or> (\<exists>b. x = JBool b)"
    and "\<forall>x. map_of kvs ''mustBeTakenConcurrently'' = Some x \<longrightarrow> x = JUndefined \<or> (\<exists>b. x = JBool b)"
    and "map_of kvs ''minGrade'' = Some g"
  shows "(g = JNum (- 1) \<or> g = JNum 101 \<or> (\<exists>s. g = JStr s) \<longrightarrow>
            validateRequirements v (JObj kvs) =
              Inr (invalid ''minGrade must be a number between 0 and 100'')) \<and>
         (g = JNum 0 \<or> g = JNum 100 \<longrightarrow> validateRequirements v (JObj kvs) = Inr valid) \<and>
         validateRequirements v (JObj kvs) = validateRequirementCourse v (JObj kvs) \<and>
         validateRequirementCourse v (JObj kvs) =
           Inr (if g = JUndefined \<or> (\<exists>n. g = JNum n \<and> 0 \<le> n \<and> n \<le> 100) then valid
                else invalid ''minGrade must be a number between 0 and 100'')"
proof -
  have disp: "validateRequirements v (JObj kvs) = validateRequirementCourse v (JObj kvs)"
    using assms(1) by (simp add: validateRequirements.simps [of v "JObj kvs"])
  have flags: "\<not> (x \<noteq> JUndefined \<and> typeof x \<noteq> ''boolean'')"
    if "x = JUndefined \<or> (\<exists>b. x = JBool b)" for x
    using that by auto
  have crs: "validateRequirementCourse v (JObj kvs) =
           Inr (if g = JUndefined \<or> (\<exists>n. g = JNum n \<and> 0 \<le> n \<and> n \<le> 100) then valid
                else invalid ''minGrade must be a number between 0 and 100'')"
    using assms(2-6)
    by (cases g) (auto simp: validateRequirementCourse_def bindE_def badMinGrade_def
        split: option.splits)
  show ?thesis unfolding disp crs by (auto simp: invalid_def valid_def)
qed


theorem course_minGrade_range_witness:
  "validateRequirements UtilitiesTs
     (JObj [(''type'', JStr ''course''), (''course'', JStr ''MATH 100''), (''minGrade'', JNum 101)])
     = Inr (invalid ''minGrade must be a number between 0 and 100'') \<and>
   validateRequirements UtilitiesTs
     (JObj [(''type'', JStr ''course''), (''course'', JStr ''MATH 100''), (''minGrade'', JNum (- 1))])
     = Inr (invalid ''minGrade must be a number between 0 and 100'') \<and>
   validateRequirements UtilitiesTs
     (JObj [(''type'', JStr ''course''), (''course'', JStr ''MATH 100''), (''minGrade'', JStr ''B+'')])
     = Inr (invalid ''minGrade must be a number between 0 and 100'') \<and>
   validateRequirements UtilitiesTs
     (JObj [(''type'', JStr ''course''), (''course'', JStr ''MATH 100''), (''minGrade'', JNum 0),
            (''canBeTakenConcurrently'', JBool True)])
     = Inr valid \<and>
   validateRequirements UtilitiesTs
     (JObj [(''type'', JStr ''course''), (''course'', JStr ''MATH 100''), (''minGrade'', JNum 100)])
     = Inr valid"
proof -
  have a: "validateRequirements UtilitiesTs
     (JObj [(''type'', JStr ''course''), (''course'', JStr ''MATH 100''), (''minGrade'', JNum 101)])
     = Inr (invalid ''minGrade must be a number between 0 and 100'')"
    using course_minGrade_range [where kvs = "[(''type'', JStr ''course''),
        (''course'', JStr ''MATH 100''), (''minGrade'', JNum 101)]" and c = "''MATH 100''"
        and g = "JNum 101" and v = UtilitiesTs]
    by simp
  have b: "validateRequirements UtilitiesTs
     (JObj [(''type'', JStr ''course''), (''course'', JStr ''MATH 100''), (''minGrade'', JNum (- 1))])
     = Inr (invalid ''minGrade must be a number between 0 and 100'')"
    using course_minGrade_range [where kvs = "[(''type'', JStr ''course''),
        (''course'', JStr ''MATH 100''), (''minGrade'', JNum (- 1))]" and c = "''MATH 100''"
        and g = "JNum (- 1)" and v = UtilitiesTs]
    by simp
  have c: "validateRequirements UtilitiesTs
     (JObj [(''type'', JStr ''course''), (''course'', JStr ''MATH 100''), (''minGrade'', JStr ''B+'')])
     = Inr (invalid ''minGrade must be a number between 0 and 100'')"
    using course_minGrade_range [where kvs = "[(''type'', JStr ''course''),
        (''course'', JStr ''MATH 100''), (''minGrade'', JStr ''B+'')]" and c = "''MATH 100''"
        and g = "JStr ''B+''" and v = UtilitiesTs]
    by simp
  have d: "validateRequirements UtilitiesTs
     (JObj [(''type'', JStr ''course''), (''course'', JStr ''MATH 100''), (''minGrade'', JNum 0),
            (''canBeTakenConcurrently'', JBool True)])
     = Inr valid"
    using course_minGrade_range [where kvs = "[(''type'', JStr ''course''),
        (''course'', JStr ''MATH 100''), (''minGrade'', JNum 0),
        (''canBeTakenConcurrently'', JBool True)]" and c = "''MATH 100''"
        and g = "JNum 0" and v = UtilitiesTs]
    by auto
  have e: "validateRequirements UtilitiesTs
     (JObj [(''type'', JStr ''course''), (''course'', JStr ''MATH 100''), (''minGrade'', JNum 100)])
     = Inr valid"
    using course_minGrade_range [where kvs = "[(''type'', JStr ''course''),
        (''course'', JStr ''MATH 100''), (''minGrade'', JNum 100)]" and c = "''MATH 100''"
        and g = "JNum 100" and v = UtilitiesTs]
    by simp
  show ?thesis using a b c d e by blast
qed


text \<open>
  Claim C9. In either copy of the validator, a \<^verbatim>\<open>group\<close> with one of the three logic
  values is rejected with the reason \<^verbatim>\<open>Group must have at least one child\<close> when its
  children array is empty; and when the child at index \<open>i\<close> is rejected with the result
  \<open>r\<close> while every child before it is accepted, the group is rejected with
  \<^verbatim>\<open>Invalid child at index i: \<close> followed by the reason of \<open>r\<close>, whatever the children
  after it are.
\<close>

theorem group_children_checked:
  assumes "map_of kvs ''type'' = Some (JStr ''group'')"
    and "map_of kvs ''logic'' = Some (JStr l)"
    and "l \<in> {''ALL_OF'', ''ONE_OF'', ''TWO_OF''}"
    and "map_of kvs ''children'' = Some (JArr cs)"
  shows "(cs = [] \<longrightarrow>
            validateRequirements v (JObj kvs) = Inr (invalid ''Group must have at least one child'') \<and>
            validateRequirementGroup v (JObj kvs) = Inr (invalid ''Group must have at least one child'')) \<and>
         (i < length cs \<and>
          (\<forall>j<i. \<exists>r'. validateRequirements v (cs ! j) = Inr r' \<and> isValid r') \<and>
          validateRequirements v (cs ! i) = Inr r \<and> \<not> isValid r \<longrightarrow>
            validateRequirements v (JObj kvs) =
              Inr (invalid (''Invalid child at index '' @ showNat i @ '': '' @ errorText r)) \<and>
            validateRequirementGroup v (JObj kvs) =
              Inr (invalid (''Invalid child at index '' @ showNat i @ '': '' @ errorText r)))"
proof -
  have disp: "validateRequirements v (JObj kvs) = validateRequirementGroup v (JObj kvs)"
    using assms(1) by (simp add: validateRequirements.simps [of v "JObj kvs"])
  have empty: "validateRequirementGroup v (JObj kvs) = Inr (invalid ''Group must have at least one child'')"
    if "cs = []"
    using assms(2-4) that
    by (auto simp: validateRequirementGroup.simps [of v "JObj kvs"] includesStr_def)
  have fail: "validateRequirementGroup v (JObj kvs) =
      Inr (invalid (''Invalid child at index '' @ showNat i @ '': '' @ errorText r))"
    if "i < length cs" "\<forall>j<i. \<exists>r'. validateRequirements v (cs ! j) = Inr r' \<and> isValid r'"
      "validateRequirements v (cs ! i) = Inr r" "\<not> isValid r"
  proof -
    have "validateChildren v cs 0 =
      Inr (Some (invalid (''Invalid child at index '' @ showNat i @ '': '' @ errorText r)))"
      using validateChildren_fail_fast [OF that] by simp
    moreover have "cs \<noteq> []" using that(1) by auto
    ultimately show ?thesis
      using assms(2-4)
      by (auto simp: validateRequirementGroup.simps [of v "JObj kvs"] includesStr_def)
  qed
  show ?thesis unfolding disp using empty fail by blast
qed

theorem group_children_checked_witness:
  "validateRequirements Part000
     (JObj [(''type'', JStr ''group''), (''logic'', JStr ''ONE_OF''), (''children'', JArr [])])
     = Inr (invalid ''Group must have at least one child'') \<and>
   validateRequirements UtilitiesTs
     (JObj [(''type'', JStr ''group''), (''logic'', JStr ''ALL_OF''),
            (''children'',
               JArr [JObj [(''type'', JStr ''course''), (''course'', JStr ''MATH 100'')],
                     JObj [(''type'', JStr ''course'')],
                     JNull])])
     = Inr (invalid
         ''Invalid child at index 1: Course requirement must have a course field'')"
proof -
  have a: "validateRequirements UtilitiesTs
      (JObj [(''type'', JStr ''course''), (''course'', JStr ''MATH 100'')]) = Inr valid"
    by (simp add: validator_unfold)
  have b: "validateRequirements UtilitiesTs (JObj [(''type'', JStr ''course'')])
      = Inr (invalid ''Course requirement must have a course field'')"
    by (simp add: validator_unfold)
  have c: "\<forall>j<1. \<exists>r'. validateRequirements UtilitiesTs
      ([JObj [(''type'', JStr ''course''), (''course'', JStr ''MATH 100'')],
        JObj [(''type'', JStr ''course'')], JNull] ! j) = Inr r' \<and> isValid r'"
    using a by (simp add: valid_def)
  have s: "showNat 1 = ''1''" by (simp add: showNat.simps)
  show ?thesis
    using group_children_checked [where kvs = "[(''type'', JStr ''group''),
        (''logic'', JStr ''ONE_OF''), (''children'', JArr [])]" and l = "''ONE_OF''"
        and cs = "[]" and v = Part000]
      group_children_checked [where kvs = "[(''type'', JStr ''group''), (''logic'', JStr ''ALL_OF''),
            (''children'',
               JArr [JObj [(''type'', JStr ''course''), (''course'', JStr ''MATH 100'')],
                     JObj [(''type'', JStr ''course'')],
                     JNull])]" and l = "''ALL_OF''"
          and cs = "[JObj [(''type'', JStr ''course''), (''course'', JStr ''MATH 100'')],
                     JObj [(''type'', JStr ''course'')],
                     JNull]" and i = 1 and v = UtilitiesTs
          and r = "invalid ''Course requirement must have a course field''"]
      b c s
    by (simp add: invalid_def errorText_def)
qed



end
